theory Spec2Isabelle
  imports Complex_Main "HOL-Library.Multiset" "HOL-Library.Char_ord" "HOL-Library.List_Lexorder"
    "HOL-Library.Product_Lexorder" "HOL-Library.Option_ord"
begin

section \<open>Values and errors\<close>

text \<open>
  The analytics of \<^verbatim>\<open>johnny/webapp/app.py\<close> work on \<^verbatim>\<open>Decimal\<close> values and, in
  \<^verbatim>\<open>RatioDistribution\<close>, on arrays of floats. Both are modelled by their exact values
  in \<open>real\<close>: comparisons are the exact ones, every explicit rounding of the source
  (\<^verbatim>\<open>quantize\<close>, \<^verbatim>\<open>int\<close>) is inside the model, and the implicit rounding of the
  arithmetic (the 28 significant digits of the decimal context, the float operations) is
  outside it; the float division and multiplication of \<^verbatim>\<open>RatioDistribution\<close> are
  parameters of its model. A Python exception is a value of \<open>py_error\<close>, and a function
  that can raise returns \<open>py_error + 'a\<close>.
\<close>

datatype py_error =
    ValueError string
  | TypeError
  | IndexError
  | ZeroDivisionError

definition bind_err :: "'e + 'a \<Rightarrow> ('a \<Rightarrow> 'e + 'b) \<Rightarrow> 'e + 'b" where
  "bind_err m f = (case m of Inl e \<Rightarrow> Inl e | Inr x \<Rightarrow> f x)"

fun mapM_err :: "('a \<Rightarrow> 'e + 'b) \<Rightarrow> 'a list \<Rightarrow> 'e + 'b list" where
  "mapM_err f [] = Inr []"
| "mapM_err f (x # xs) =
     bind_err (f x) (\<lambda>y. bind_err (mapM_err f xs) (\<lambda>ys. Inr (y # ys)))"

text \<open>The division operator \<^verbatim>\<open>/\<close> of Python, which raises on a zero divisor.\<close>

definition truediv :: "real \<Rightarrow> real \<Rightarrow> py_error + real" where
  "truediv a b = (if b = 0 then Inl ZeroDivisionError else Inr (a / b))"

definition ZERO :: real where
  "ZERO = 0"

text \<open>
  Rounding to the nearest integer with ties to the even neighbour, the default rounding
  mode (\<^verbatim>\<open>ROUND_HALF_EVEN\<close>) of \<^verbatim>\<open>Decimal.quantize\<close>.
\<close>

definition round_half_even :: "real \<Rightarrow> int" where
  "round_half_even y =
     (let f = \<lfloor>y\<rfloor>; d = y - of_int f
      in if d < 1 / 2 then f
         else if 1 / 2 < d then f + 1
         else if even f then f else f + 1)"

text \<open>\<^verbatim>\<open>Q = Decimal('0.01')\<close> and \<^verbatim>\<open>value.quantize(Q)\<close>.\<close>

definition quantize :: "real \<Rightarrow> real" where
  "quantize x = of_int (round_half_even (x * 100)) / 100"


section \<open>Table rows\<close>

text \<open>
  Modelled from the spec: the schema of an expanded row, which \<^verbatim>\<open>instrument.Expand\<close>
  (module \<^verbatim>\<open>johnny.base.instrument\<close>) builds. The fields are those of the transaction
  and position rows of the data model that \<^verbatim>\<open>app.py\<close> reads, with the fields derived
  from the symbol. \<^verbatim>\<open>putcall\<close> and \<^verbatim>\<open>strike\<close> are \<^verbatim>\<open>None\<close> on rows that are not
  options: the renderers of \<^verbatim>\<open>app.py\<close> test both for \<^verbatim>\<open>None\<close>. \<^verbatim>\<open>datetime\<close> is a
  timestamp.
\<close>

record row =
  datetime :: int
  order_id :: string
  symbol :: string
  instruction :: string
  effect :: string
  description :: string
  instype :: string
  putcall :: "string option"
  quantity :: real
  multiplier :: real
  strike :: "real option"
  price :: real
  cost :: real

text \<open>
  Modelled from the spec: the schema of a row of the chains table, built by
  \<^verbatim>\<open>consolidate.ConsolidateChains\<close>; the fields of the chain row of the data model that
  \<^verbatim>\<open>stats\<close> reads.
\<close>

record chain =
  chain_id :: string
  init :: real
  chain_pnl :: real
  accr :: real

section \<open>Notional of a position row\<close>

text \<open>
  \<^verbatim>\<open>rec.putcall[0]\<close> raises \<^verbatim>\<open>TypeError\<close> on \<^verbatim>\<open>None\<close> and \<^verbatim>\<open>IndexError\<close> on the
  empty string; a product with \<^verbatim>\<open>None\<close> raises \<^verbatim>\<open>TypeError\<close>.
\<close>

definition GetNotional :: "row \<Rightarrow> py_error + real" where
  "GetNotional rec =
     (if instype rec \<in> {''EquityOption'', ''FutureOption''} then
        (case putcall rec of
           None \<Rightarrow> Inl TypeError
         | Some [] \<Rightarrow> Inl IndexError
         | Some (c # _) \<Rightarrow>
             if c = CHR ''P'' then
               (case strike rec of
                  None \<Rightarrow> Inl TypeError
                | Some k \<Rightarrow> Inr (quantize (quantity rec * multiplier rec * k)))
             else Inr (quantize ZERO))
      else if instype rec \<in> {''Equity'', ''Future''} then
        Inr (quantize (quantity rec * multiplier rec * price rec))
      else Inl (ValueError (''Invalid instrument type: '' @ instype rec)))"

text \<open>
  The reference rounding of the specification, in its own words: the result is a multiple
  of 0.01, at most half a cent away from the exact value, and where the exact value lies
  half-way between two multiples the one with the even number of cents is taken.
\<close>

definition is_round_half_even_2dp :: "real \<Rightarrow> real \<Rightarrow> bool" where
  "is_round_half_even_2dp x r =
     (let k = \<lfloor>r * 100\<rfloor>
      in r = of_int k / 100 \<and> \<bar>r - x\<bar> \<le> 1 / 200 \<and> (\<bar>r - x\<bar> = 1 / 200 \<longrightarrow> even k))"

definition is_option :: "row \<Rightarrow> bool" where
  "is_option rec = (instype rec = ''EquityOption'' \<or> instype rec = ''FutureOption'')"

definition is_outright :: "row \<Rightarrow> bool" where
  "is_outright rec = (instype rec = ''Equity'' \<or> instype rec = ''Future'')"

section \<open>Chain statistics\<close>

definition PctCr :: "chain \<Rightarrow> py_error + real" where
  "PctCr rec = (if init rec = 0 then Inr 0 else truediv (chain_pnl rec) (init rec))"

text \<open>
  Modelled from the spec: \<^verbatim>\<open>Table.biselect\<close> of the table library
  (\<^verbatim>\<open>johnny.base.etl\<close>), the selection that partitions a table: it returns the table of
  the rows that satisfy the predicate and the table of the remaining rows.
\<close>

definition biselect :: "('a \<Rightarrow> bool) \<Rightarrow> 'a list \<Rightarrow> 'a list \<times> 'a list" where
  "biselect p table = (filter p table, filter (\<lambda>r. \<not> p r) table)"

text \<open>
  The reductions of numpy. The mean of an empty array is \<^verbatim>\<open>nan\<close> (with a warning, no
  exception); the maximum and the minimum of an empty array raise \<^verbatim>\<open>ValueError\<close>.
\<close>

datatype num = Num real | NaN

definition np_sum :: "real list \<Rightarrow> real" where
  "np_sum xs = sum_list xs"

definition np_mean :: "real list \<Rightarrow> num" where
  "np_mean xs = (if xs = [] then NaN else Num (sum_list xs / real (length xs)))"

definition np_max :: "real list \<Rightarrow> py_error + real" where
  "np_max xs = (if xs = [] then Inl (ValueError ''zero-size array to reduction operation'')
                else Inr (Max (set xs)))"

definition np_min :: "real list \<Rightarrow> py_error + real" where
  "np_min xs = (if xs = [] then Inl (ValueError ''zero-size array to reduction operation'')
                else Inr (Min (set xs)))"

text \<open>
  \<^verbatim>\<open>Quantize(value)\<close> is \<^verbatim>\<open>Decimal(value).quantize(Decimal('0'))\<close>; a \<^verbatim>\<open>nan\<close> stays
  one.
\<close>

definition Quantize :: "num \<Rightarrow> num" where
  "Quantize v = (case v of NaN \<Rightarrow> NaN | Num x \<Rightarrow> Num (of_int (round_half_even x)))"

text \<open>
  A cell of the statistics table keeps the format and the value formatted:
  \<^verbatim>\<open>'${}'.format(v)\<close> is \<open>Dollars v\<close>, \<^verbatim>\<open>'{}/{}'.format(a, b)\<close> is \<open>Count a b\<close> and
  \<^verbatim>\<open>'{:.1%}'.format(v)\<close> is \<open>Percent v\<close>.
\<close>

datatype cell = Str string | Dollars num | Count nat nat | Percent num

text \<open>
  The rows of \<^verbatim>\<open>stats\<close>, built in the order of the list display of the source. The
  table with the field \<^verbatim>\<open>pct_cr\<close> added is a list of pairs of a chain and its
  \<^verbatim>\<open>pct_cr\<close>.
\<close>

definition stats :: "chain list \<Rightarrow> py_error + cell list list" where
  "stats chains0 =
     bind_err (mapM_err PctCr chains0) (\<lambda>pcts.
       let chains = zip chains0 pcts;
           (win, los) = biselect (\<lambda>r. chain_pnl (fst r) > 0) chains;
           pnl = map (\<lambda>r. chain_pnl (fst r)) chains;
           pnl_win = map (\<lambda>r. chain_pnl (fst r)) win;
           pnl_los = map (\<lambda>r. chain_pnl (fst r)) los;
           init_cr = map (\<lambda>r. init (fst r)) chains;
           accr_cr = map (\<lambda>r. accr (fst r)) chains;
           pct_cr = map snd chains;
           pct_cr_win = map snd win;
           pct_cr_los = map snd los
       in
       bind_err (truediv (real (length pnl_win)) (real (length pnl))) (\<lambda>win_ratio.
       bind_err (if length pnl_win \<noteq> 0 then np_max pnl_win else Inr ZERO) (\<lambda>max_win.
       bind_err (if length pnl_los \<noteq> 0 then np_min pnl_los else Inr ZERO) (\<lambda>max_los.
         Inr [
           [Str ''Description'', Str ''Stat'', Str ''Stat%'', Str ''Description''],
           [Str ''P/L'',
            Dollars (Quantize (Num (if length pnl \<noteq> 0 then np_sum pnl else ZERO))),
            Str [], Str []],
           [Str ''# of wins'',
            Count (length pnl_win) (length pnl),
            Percent (Num win_ratio),
            Str ''% of wins''],
           [Str ''Avg init credits'',
            Dollars (Quantize (np_mean init_cr)),
            Str [], Str []],
           [Str ''Avg P/L per trade'',
            Dollars (Quantize (if length pnl \<noteq> 0 then np_mean pnl else Num ZERO)),
            Percent (if length pct_cr \<noteq> 0 then np_mean pct_cr else Num ZERO),
            Str ''Avg %cr per trade''],
           [Str ''Avg P/L win'',
            Dollars (Quantize (if length pnl_win \<noteq> 0 then np_mean pnl_win else Num ZERO)),
            Percent (if length pct_cr_win \<noteq> 0 then np_mean pct_cr_win else Num ZERO),
            Str ''Avg %cr win''],
           [Str ''Avg P/L loss'',
            Dollars (Quantize (if length pnl_los \<noteq> 0 then np_mean pnl_los else Num ZERO)),
            Percent (if length pct_cr_los \<noteq> 0 then np_mean pct_cr_los else Num ZERO),
            Str ''Avg %cr loss''],
           [Str ''Max win'', Dollars (Quantize (Num max_win)), Str [], Str []],
           [Str ''Max loss'', Dollars (Quantize (Num max_los)), Str [], Str []]
         ]))))"

section \<open>Ratio distribution\<close>

text \<open>The float denoted by the literal \<^verbatim>\<open>1e-6\<close>: 4722366482869645 / 2^72.\<close>

definition eps :: real where
  "eps = 4722366482869645 / 4722366482869645213696"

text \<open>
  Indexing an array by a boolean mask, \<^verbatim>\<open>arr[mask]\<close>, keeps the elements at the
  positions where the mask is true and raises \<^verbatim>\<open>IndexError\<close> when the lengths differ.
\<close>

definition bool_index :: "'a list \<Rightarrow> bool list \<Rightarrow> py_error + 'a list" where
  "bool_index arr msk =
     (if length msk \<noteq> length arr then Inl IndexError
      else Inr (map fst (filter snd (zip arr msk))))"

text \<open>
  \<open>fdiv\<close> and \<open>fmul\<close> are the float division and multiplication, applied elementwise
  by \<^verbatim>\<open>num/denom * 100\<close>.
\<close>

definition RatioDistribution ::
  "(real \<Rightarrow> real \<Rightarrow> real) \<Rightarrow> (real \<Rightarrow> real \<Rightarrow> real) \<Rightarrow>
   real list \<Rightarrow> real list \<Rightarrow> real \<Rightarrow> py_error + real list" where
  "RatioDistribution fdiv fmul num denom threshold =
     (let mask = map (\<lambda>d. d > eps) denom in
      bind_err (bool_index num mask) (\<lambda>num1.
      bind_err (bool_index denom mask) (\<lambda>denom1.
        let mask1 = map (\<lambda>n. n < threshold \<and> n > - threshold) num1 in
        bind_err (bool_index num1 mask1) (\<lambda>num2.
        bind_err (bool_index denom1 mask1) (\<lambda>denom2.
          Inr (map (\<lambda>(n, d). fmul (fdiv n d) 100) (zip num2 denom2)))))))"

text \<open>The pairs that pass a test, in the order of the input.\<close>

definition pairs_where :: "(real \<Rightarrow> real \<Rightarrow> bool) \<Rightarrow> (real \<times> real) list \<Rightarrow> (real \<times> real) list" where
  "pairs_where p ps = filter (\<lambda>(n, d). p n d) ps"

section \<open>Trade history as text\<close>

text \<open>
  \<open>fmt\<close> is \<^verbatim>\<open>fmt.format(r=row)\<close>, the rendering of one leg; it is a parameter of the
  model, which keeps the selection of the legs and the joining.
\<close>

fun join :: "string \<Rightarrow> string list \<Rightarrow> string" where
  "join sep [] = []"
| "join sep [s] = s"
| "join sep (s # t # ss) = s @ sep @ join sep (t # ss)"

definition RenderStatic :: "(row \<Rightarrow> string) \<Rightarrow> row list \<Rightarrow> string" where
  "RenderStatic fmt rows = join ''; '' (map fmt (filter (\<lambda>row. putcall row = None) rows))"

definition RenderPuts :: "(row \<Rightarrow> string) \<Rightarrow> row list \<Rightarrow> string" where
  "RenderPuts fmt rows =
     join ''; '' (map fmt (filter (\<lambda>row. case putcall row of
                                              Some (c # _) \<Rightarrow> c = CHR ''P''
                                            | _ \<Rightarrow> False) rows))"

definition RenderCalls :: "(row \<Rightarrow> string) \<Rightarrow> row list \<Rightarrow> string" where
  "RenderCalls fmt rows =
     join ''; '' (map fmt (filter (\<lambda>row. case putcall row of
                                              Some (c # _) \<Rightarrow> c = CHR ''C''
                                            | _ \<Rightarrow> False) rows))"

text \<open>A row of the aggregated table: the two key fields and the four aggregates.\<close>

record agg_row =
  datetime_agg :: int
  order_id_agg :: string
  static :: string
  puts :: string
  calls :: string
  cost_agg :: real

text \<open>
  Modelled from the spec: \<^verbatim>\<open>Table.aggregate\<close> of the table library
  (\<^verbatim>\<open>johnny.base.etl\<close>), the grouping of the rows by a key with sorted iteration: it
  sorts the table by the key (a stable sort), cuts it into the runs of rows with equal
  keys, and builds one row from each run, in the order of the keys. \<open>rowgroupby\<close> is the
  cutting into runs; the aggregates of \<open>aggregate\<close> are those of the dictionary
  \<^verbatim>\<open>agg\<close> of \<^verbatim>\<open>RenderHistoryText\<close>.
\<close>

function rowgroupby :: "('a \<Rightarrow> 'k) \<Rightarrow> 'a list \<Rightarrow> ('k \<times> 'a list) list" where
  "rowgroupby key [] = []"
| "rowgroupby key (x # xs) =
     (key x, x # takeWhile (\<lambda>y. key y = key x) xs)
       # rowgroupby key (dropWhile (\<lambda>y. key y = key x) xs)"
  by pat_completeness auto
termination
  by (relation "measure (\<lambda>(key, xs). length xs)")
    (auto simp: length_dropWhile_le less_Suc_eq_le)

definition aggregate :: "(row \<Rightarrow> string) \<Rightarrow> row list \<Rightarrow> agg_row list" where
  "aggregate fmt txns =
     map (\<lambda>(k, rows).
            \<lparr>datetime_agg = fst k, order_id_agg = snd k,
             static = RenderStatic fmt rows,
             puts = RenderPuts fmt rows,
             calls = RenderCalls fmt rows,
             cost_agg = sum_list (map cost rows)\<rparr>)
         (rowgroupby (\<lambda>r. (datetime r, order_id r))
            (sort_key (\<lambda>r. (datetime r, order_id r)) txns))"

text \<open>
  Modelled from the spec: \<^verbatim>\<open>Table.addfieldusingcontext\<close> of the table library
  (\<^verbatim>\<open>johnny.base.etl\<close>), the sequential pass in which each row sees the value computed
  for the row before it: it adds to each row the value of \<^verbatim>\<open>query(prv, cur, nxt)\<close>,
  where \<^verbatim>\<open>prv\<close> is the previous row of the output (with the added field, \<^verbatim>\<open>None\<close>
  before the first row) and \<^verbatim>\<open>nxt\<close> the next row of the input (\<^verbatim>\<open>None\<close> after the
  last). A row with the field added is the pair of the row and the value.
\<close>

fun addfieldusingcontext ::
  "(('a \<times> 'v) option \<Rightarrow> 'a \<Rightarrow> 'a option \<Rightarrow> 'v) \<Rightarrow> ('a \<times> 'v) option \<Rightarrow> 'a list \<Rightarrow> ('a \<times> 'v) list" where
  "addfieldusingcontext query prv [] = []"
| "addfieldusingcontext query prv (cur # rest) =
     (let nxt = (case rest of [] \<Rightarrow> None | n # _ \<Rightarrow> Some n);
          out = (cur, query prv cur nxt)
      in out # addfieldusingcontext query (Some out) rest)"

definition Accrue :: "(agg_row \<times> real) option \<Rightarrow> agg_row \<Rightarrow> agg_row option \<Rightarrow> real" where
  "Accrue prv cur nxt =
     (let last_accr = (case prv of Some p \<Rightarrow> snd p | None \<Rightarrow> ZERO)
      in last_accr + cost_agg cur)"

text \<open>
  The table \<^verbatim>\<open>rendered_rows\<close> that \<^verbatim>\<open>RenderHistoryText\<close> prints between
  \<^verbatim>\<open><pre>\<close> and \<^verbatim>\<open></pre>\<close>; the second component of a row is its \<^verbatim>\<open>accr\<close>.
\<close>

definition rendered_rows :: "(row \<Rightarrow> string) \<Rightarrow> row list \<Rightarrow> (agg_row \<times> real) list" where
  "rendered_rows fmt txns = addfieldusingcontext Accrue None (aggregate fmt txns)"

text \<open>The transactions of one execution event.\<close>

definition event_rows :: "row list \<Rightarrow> int \<times> string \<Rightarrow> row list" where
  "event_rows txns k = filter (\<lambda>r. (datetime r, order_id r) = k) txns"

text \<open>The execution events of a chain, in the order of (datetime, order_id).\<close>

definition event_keys :: "row list \<Rightarrow> (int \<times> string) list" where
  "event_keys txns = sorted_list_of_set ((\<lambda>r. (datetime r, order_id r)) ` set txns)"

section \<open>Trade history as SVG\<close>









section \<open>Reference sets and sample rows\<close>


text \<open>
  The position of the scenario of the specification (100 shares at 50.00), a put and a
  call derived from it.
\<close>

definition equity_row :: row where
  "equity_row =
     \<lparr>datetime = 0, order_id = [], symbol = ''XYZ'', instruction = ''BUY'', effect = ''OPENING'',
      description = [], instype = ''Equity'', putcall = None, quantity = 100, multiplier = 1,
      strike = None, price = 50, cost = 0\<rparr>"

definition put_row :: row where
  "put_row = equity_row\<lparr>instype := ''EquityOption'', putcall := Some ''P'', quantity := 1,
                         strike := Some (45125 / 1000)\<rparr>"

definition call_row :: row where
  "call_row = put_row\<lparr>putcall := Some ''C''\<rparr>"

text \<open>
  The chains of the scenario of the specification (P/L 100 on an initial credit of 200,
  P/L -50 on 100) and a chain with neither credit nor P/L.
\<close>

definition chain_a :: chain where
  "chain_a = \<lparr>chain_id = ''a'', init = 200, chain_pnl = 100, accr = 0\<rparr>"

definition chain_b :: chain where
  "chain_b = \<lparr>chain_id = ''b'', init = 100, chain_pnl = - 50, accr = 0\<rparr>"

definition chain_c :: chain where
  "chain_c = \<lparr>chain_id = ''c'', init = 0, chain_pnl = 0, accr = 0\<rparr>"

text \<open>Three legs of two execution events, the later event first.\<close>

definition leg :: "int \<Rightarrow> string \<Rightarrow> real \<Rightarrow> row" where
  "leg t oid c = equity_row\<lparr>datetime := t, order_id := oid, cost := c\<rparr>"

definition history_txns :: "row list" where
  "history_txns = [leg 2 ''o2'' 5, leg 1 ''o1'' (- 3), leg 2 ''o2'' 1]"



section \<open>Rounding\<close>

lemma round_half_even_cases:
  fixes y :: real and f :: int
  assumes "of_int f \<le> y" and "y < of_int f + 1"
  shows "\<bar>of_int (if y - of_int f < 1 / 2 then f
                     else if 1 / 2 < y - of_int f then f + 1
                     else if even f then f else f + 1) - y\<bar> \<le> 1 / 2"
  using assms by (auto simp: abs_if)

lemma round_half_even_near: "\<bar>of_int (round_half_even y) - y\<bar> \<le> 1 / 2"
proof -
  have "of_int \<lfloor>y\<rfloor> \<le> y" and "y < of_int \<lfloor>y\<rfloor> + 1"
    by linarith+
  then show ?thesis
    unfolding round_half_even_def Let_def by (rule round_half_even_cases)
qed

lemma round_half_even_tie_cases:
  fixes y :: real and f :: int
  assumes "of_int f \<le> y" and "y < of_int f + 1"
    and "\<bar>of_int (if y - of_int f < 1 / 2 then f
                     else if 1 / 2 < y - of_int f then f + 1
                     else if even f then f else f + 1) - y\<bar> = 1 / 2"
  shows "even (if y - of_int f < 1 / 2 then f
               else if 1 / 2 < y - of_int f then f + 1
               else if even f then f else f + 1)"
  using assms by (auto simp: abs_if split: if_splits)

lemma round_half_even_tie:
  assumes "\<bar>of_int (round_half_even y) - y\<bar> = 1 / 2"
  shows "even (round_half_even y)"
proof -
  have "of_int \<lfloor>y\<rfloor> \<le> y" and "y < of_int \<lfloor>y\<rfloor> + 1"
    by linarith+
  then show ?thesis
    using assms unfolding round_half_even_def Let_def by (rule round_half_even_tie_cases)
qed

lemma quantize_cents: "quantize x * 100 = of_int (round_half_even (x * 100))"
  by (simp add: quantize_def)

lemma quantize_is_round_half_even_2dp: "is_round_half_even_2dp x (quantize x)"
proof -
  let ?k = "round_half_even (x * 100)"
  have k: "\<lfloor>quantize x * 100\<rfloor> = ?k"
    by (simp add: quantize_cents)
  have d: "\<bar>quantize x - x\<bar> = \<bar>of_int ?k - x * 100\<bar> / 100"
    by (simp add: quantize_def field_simps abs_if)
  have near: "\<bar>quantize x - x\<bar> \<le> 1 / 200"
    using round_half_even_near [of "x * 100"] by (simp add: d)
  have tie: "\<bar>quantize x - x\<bar> = 1 / 200 \<longrightarrow> even ?k"
    using round_half_even_tie [of "x * 100"] by (simp add: d)
  show ?thesis
    unfolding is_round_half_even_2dp_def Let_def k
    using near tie by (simp add: quantize_def)
qed

lemma quantize_zero: "quantize 0 = 0"
  by (simp add: quantize_def round_half_even_def)

section \<open>Notional: the reference definition and the failures\<close>

lemma GetNotional_outright:
  "is_outright rec \<Longrightarrow>
   GetNotional rec = Inr (quantize (quantity rec * multiplier rec * price rec))"
  by (auto simp: GetNotional_def is_outright_def)

lemma GetNotional_option:
  "is_option rec \<Longrightarrow>
   GetNotional rec =
     (case putcall rec of
        None \<Rightarrow> Inl TypeError
      | Some [] \<Rightarrow> Inl IndexError
      | Some (c # s) \<Rightarrow>
          if c = CHR ''P'' then
            (case strike rec of
               None \<Rightarrow> Inl TypeError
             | Some k \<Rightarrow> Inr (quantize (quantity rec * multiplier rec * k)))
          else Inr 0)"
  by (auto simp: GetNotional_def is_option_def ZERO_def quantize_zero
      split: option.splits list.splits)



lemma not_option_and_outright: "is_option rec \<Longrightarrow> \<not> is_outright rec"
  by (auto simp: is_option_def is_outright_def)

text \<open>
  C3. On every expanded row \<^verbatim>\<open>GetNotional\<close> is the reference definition: on an
  Equity or Future row the result is quantity times multiplier times price, on a put of an
  EquityOption or FutureOption row it is quantity times multiplier times strike, both
  quantized to 0.01 with round-half-even, and on a call it is 0. The last conjunct says
  that \<open>quantize\<close> is the reference rounding.
\<close>

theorem GetNotional_reference:
  "(is_outright rec \<longrightarrow>
      GetNotional rec = Inr (quantize (quantity rec * multiplier rec * price rec)))
   \<and> (is_option rec \<and> putcall rec = Some (CHR ''P'' # s) \<and> strike rec = Some k \<longrightarrow>
      GetNotional rec = Inr (quantize (quantity rec * multiplier rec * k)))
   \<and> (is_option rec \<and> putcall rec = Some (CHR ''C'' # s) \<longrightarrow> GetNotional rec = Inr 0)
   \<and> is_round_half_even_2dp x (quantize x)"
  by (simp add: GetNotional_outright GetNotional_option quantize_is_round_half_even_2dp)

theorem GetNotional_reference_witness:
  "is_outright equity_row \<and> GetNotional equity_row = Inr 5000
   \<and> is_option put_row \<and> putcall put_row = Some (CHR ''P'' # []) \<and> strike put_row = Some (45125 / 1000)
   \<and> GetNotional put_row = Inr (4512 / 100)
   \<and> is_option call_row \<and> putcall call_row = Some (CHR ''C'' # []) \<and> GetNotional call_row = Inr 0
   \<and> is_round_half_even_2dp (45125 / 1000) (4512 / 100)"
  using GetNotional_reference [where rec = equity_row and x = "45125 / 1000"]
    GetNotional_reference [where rec = put_row and s = "[]" and k = "45125 / 1000"]
    GetNotional_reference [where rec = call_row and s = "[]"]
  by (simp add: equity_row_def put_row_def call_row_def is_outright_def is_option_def
      quantize_def round_half_even_def Let_def)




text \<open>
  C10. On an EquityOption or FutureOption row \<^verbatim>\<open>GetNotional\<close> reads only the first
  character of \<^verbatim>\<open>putcall\<close>: every non-empty \<^verbatim>\<open>putcall\<close> that does not start with
  \<^verbatim>\<open>P\<close> gives the notional 0, a missing or empty \<^verbatim>\<open>putcall\<close> is a fault, so a
  non-empty \<^verbatim>\<open>putcall\<close> is necessary for the option branch to return.
\<close>

theorem GetNotional_putcall_first_char:
  assumes "is_option rec"
  shows "(putcall rec = Some (c # s) \<longrightarrow>
            GetNotional rec = GetNotional (rec\<lparr>putcall := Some [c]\<rparr>))
         \<and> (putcall rec = Some (c # s) \<and> c \<noteq> CHR ''P'' \<longrightarrow> GetNotional rec = Inr 0)
         \<and> (putcall rec = None \<longrightarrow> GetNotional rec = Inl TypeError)
         \<and> (putcall rec = Some [] \<longrightarrow> GetNotional rec = Inl IndexError)
         \<and> (\<not> isl (GetNotional rec) \<longrightarrow> (\<exists>c s. putcall rec = Some (c # s)))"
proof -
  have "is_option (rec\<lparr>putcall := Some [c]\<rparr>)"
    using assms by (simp add: is_option_def)
  then show ?thesis
    using assms by (auto simp: GetNotional_option split: option.splits list.splits)
qed

theorem GetNotional_putcall_first_char_witness:
  "is_option (put_row\<lparr>putcall := Some ''Xyz''\<rparr>)
   \<and> GetNotional (put_row\<lparr>putcall := Some ''Xyz''\<rparr>) = Inr 0
   \<and> GetNotional (put_row\<lparr>putcall := Some ''Xyz''\<rparr>) = GetNotional (put_row\<lparr>putcall := Some ''X''\<rparr>)
   \<and> GetNotional (put_row\<lparr>putcall := Some []\<rparr>) = Inl IndexError
   \<and> GetNotional (put_row\<lparr>putcall := None\<rparr>) = Inl TypeError"
  using GetNotional_putcall_first_char [of "put_row\<lparr>putcall := Some ''Xyz''\<rparr>" "CHR ''X''" "''yz''"]
    GetNotional_putcall_first_char [of "put_row\<lparr>putcall := Some []\<rparr>"]
    GetNotional_putcall_first_char [of "put_row\<lparr>putcall := None\<rparr>"]
  by (simp add: put_row_def equity_row_def is_option_def GetNotional_def ZERO_def quantize_zero)

section \<open>Chain statistics: the return ratio, the partition and the empty table\<close>

lemma bind_err_Inr: "bind_err (Inr x) f = f x"
  by (simp add: bind_err_def)

lemma bind_err_Inl: "bind_err (Inl e) f = Inl e"
  by (simp add: bind_err_def)

lemma PctCr_Inr: "PctCr rec = Inr (if init rec = 0 then 0 else chain_pnl rec / init rec)"
  by (simp add: PctCr_def truediv_def)

lemma mapM_err_Inr:
  "(\<And>x. x \<in> set xs \<Longrightarrow> f x = Inr (g x)) \<Longrightarrow> mapM_err f xs = Inr (map g xs)"
  by (induction xs) (simp_all add: bind_err_Inr)

lemma mapM_err_PctCr:
  "mapM_err PctCr cs = Inr (map (\<lambda>rec. if init rec = 0 then 0 else chain_pnl rec / init rec) cs)"
  by (rule mapM_err_Inr) (rule PctCr_Inr)







text \<open>
  C1. The claim is that \<^verbatim>\<open>stats\<close> on an empty chain table returns all-zero or blank
  rows and never faults. The code does not: the cell of the win ratio divides
  \<^verbatim>\<open>len(pnl_win)\<close> by \<^verbatim>\<open>len(pnl)\<close> without the guard that the cells around it have,
  and the empty table raises \<^verbatim>\<open>ZeroDivisionError\<close>.
\<close>

theorem stats_empty_table: "stats [] = Inl ZeroDivisionError"
  by (simp add: stats_def bind_err_def biselect_def truediv_def)

text \<open>
  C8. The return ratio of a chain is computed totally: it is 0 when \<^verbatim>\<open>init\<close> is 0 and
  \<^verbatim>\<open>chain_pnl / init\<close> otherwise, the division by zero is never reached, and neither
  one chain nor a whole table makes the computation fault.
\<close>

theorem PctCr_total:
  "PctCr rec = Inr (if init rec = 0 then 0 else chain_pnl rec / init rec)
   \<and> \<not> isl (PctCr rec)
   \<and> \<not> isl (mapM_err PctCr cs)"
  by (simp add: PctCr_Inr mapM_err_PctCr)

theorem PctCr_total_witness:
  "PctCr chain_a = Inr (1 / 2) \<and> PctCr chain_c = Inr 0
   \<and> \<not> isl (mapM_err PctCr [chain_a, chain_b, chain_c])"
  using PctCr_total [of chain_a "[chain_a, chain_b, chain_c]"] PctCr_total [of chain_c "[]"]
  by (simp add: chain_a_def chain_b_def chain_c_def PctCr_def truediv_def bind_err_def)



section \<open>Ratio distribution: the two passes\<close>

lemma bool_index_map:
  "bool_index (map f ps) (map p ps) = Inr (map f (filter p ps))"
proof -
  have "map fst (filter snd (zip (map f ps) (map p ps))) = map f (filter p ps)"
    by (induction ps) simp_all
  then show ?thesis
    by (simp add: bool_index_def)
qed

lemma RatioDistribution_pairs:
  "RatioDistribution fdiv fmul (map fst ps) (map snd ps) t =
     Inr (map (\<lambda>(n, d). fmul (fdiv n d) 100)
            (pairs_where (\<lambda>n d. n < t \<and> n > - t) (pairs_where (\<lambda>n d. d > eps) ps)))"
proof -
  let ?F = "filter (\<lambda>q. snd q > eps) ps"
  let ?G = "filter (\<lambda>q. fst q < t \<and> fst q > - t) ?F"
  have m: "map (\<lambda>d. d > eps) (map snd ps) = map (\<lambda>q. snd q > eps) ps"
    by simp
  have m1: "map (\<lambda>n. n < t \<and> n > - t) (map fst ?F) = map (\<lambda>q. fst q < t \<and> fst q > - t) ?F"
    by simp
  have z: "zip (map fst ?G) (map snd ?G) = ?G"
    by (simp add: zip_map_fst_snd)
  have F: "pairs_where (\<lambda>n d. d > eps) ps = ?F"
    by (simp add: pairs_where_def case_prod_unfold)
  have G: "pairs_where (\<lambda>n d. n < t \<and> n > - t) ?F = ?G"
    by (simp add: pairs_where_def case_prod_unfold)
  show ?thesis
    unfolding RatioDistribution_def Let_def m bool_index_map bind_err_Inr m1 z F G ..
qed

lemma RatioDistribution_closed:
  assumes "length num = length denom"
  shows "RatioDistribution fdiv fmul num denom t =
     Inr (map (\<lambda>(n, d). fmul (fdiv n d) 100)
            (pairs_where (\<lambda>n d. n < t \<and> n > - t)
               (pairs_where (\<lambda>n d. d > eps) (zip num denom))))"
  using RatioDistribution_pairs [of fdiv fmul "zip num denom" t] assms
  by simp

lemma pairs_where_twice:
  "pairs_where p (pairs_where q ps) = pairs_where (\<lambda>n d. q n d \<and> p n d) ps"
  by (simp add: pairs_where_def case_prod_unfold)

lemma pairs_where_nil:
  "(\<And>n d. (n, d) \<in> set ps \<Longrightarrow> \<not> p n d) \<Longrightarrow> pairs_where p ps = []"
  by (auto simp: pairs_where_def filter_empty_conv)

lemma pairs_where_all:
  "(\<And>n d. (n, d) \<in> set ps \<Longrightarrow> p n d) \<Longrightarrow> pairs_where p ps = ps"
  by (auto simp: pairs_where_def filter_id_conv)

text \<open>
  C2, as stated, fails: the test of the source is \<^verbatim>\<open>denom > 1e-6\<close>, on the denominator
  and not on its absolute value, so the pair (1, -1), whose denominator has the absolute
  value 1, is dropped.
\<close>

theorem RatioDistribution_abs_counterexample:
  "RatioDistribution (/) (*) [1] [- 1] 1000 = Inr [] \<and> eps \<le> \<bar>- 1\<bar> \<and> - 1000 < (1 :: real) \<and> (1 :: real) < 1000"
  by (simp add: RatioDistribution_def bool_index_def bind_err_def eps_def)

text \<open>
  C2, amended. On two sequences of equal length \<^verbatim>\<open>RatioDistribution\<close> returns, and the
  pairs that contribute are exactly those whose denominator is greater than 1e-6 and whose
  numerator is inside the threshold, in the order of the input: where no numerator is
  outside the threshold the output is made of exactly the pairs with a denominator greater
  than 1e-6, so a pair with a denominator that is negative, or at most 1e-6, is dropped.
  An input whose denominators are all at most 1e-6, in particular all below 1e-6 in
  absolute value, gives the empty series.
\<close>

theorem RatioDistribution_denominator:
  assumes "length num = length denom"
  shows "\<exists>out. RatioDistribution fdiv fmul num denom t = Inr out
     \<and> out = map (\<lambda>(n, d). fmul (fdiv n d) 100)
               (pairs_where (\<lambda>n d. eps < d \<and> - t < n \<and> n < t) (zip num denom))
     \<and> ((\<forall>n \<in> set num. - t < n \<and> n < t) \<longrightarrow>
          out = map (\<lambda>(n, d). fmul (fdiv n d) 100) (pairs_where (\<lambda>n d. eps < d) (zip num denom)))
     \<and> ((\<forall>d \<in> set denom. d \<le> eps) \<longrightarrow> out = [])
     \<and> ((\<forall>d \<in> set denom. \<bar>d\<bar> < eps) \<longrightarrow> out = [])"
proof -
  let ?E = "pairs_where (\<lambda>n d. d > eps) (zip num denom)"
  let ?out = "map (\<lambda>(n, d). fmul (fdiv n d) 100) (pairs_where (\<lambda>n d. n < t \<and> n > - t) ?E)"
  have out: "RatioDistribution fdiv fmul num denom t = Inr ?out"
    using assms by (rule RatioDistribution_closed)
  have "(\<lambda>n d. eps < d \<and> n < t \<and> - t < n) = (\<lambda>n d. eps < d \<and> - t < n \<and> n < t)"
    by (auto simp: fun_eq_iff)
  then have len: "?out = map (\<lambda>(n, d). fmul (fdiv n d) 100)
               (pairs_where (\<lambda>n d. eps < d \<and> - t < n \<and> n < t) (zip num denom))"
    by (simp add: pairs_where_twice)
  have inl: "?out = map (\<lambda>(n, d). fmul (fdiv n d) 100) ?E"
    if "\<forall>n \<in> set num. - t < n \<and> n < t"
  proof -
    have "pairs_where (\<lambda>n d. n < t \<and> n > - t) ?E = ?E"
    proof (rule pairs_where_all)
      fix n d assume "(n, d) \<in> set ?E"
      then have "n \<in> set num"
        by (auto simp: pairs_where_def dest: set_zip_leftD)
      then show "n < t \<and> n > - t"
        using that by simp
    qed
    then show ?thesis by simp
  qed
  have nil: "?out = []" if "\<forall>d \<in> set denom. d \<le> eps"
  proof -
    have "?E = []"
    proof (rule pairs_where_nil)
      fix n d assume "(n, d) \<in> set (zip num denom)"
      then have "d \<in> set denom"
        by (rule set_zip_rightD)
      then show "\<not> d > eps"
        using that by (simp add: not_less)
    qed
    then show ?thesis
      by (simp add: pairs_where_def)
  qed
  have "?out = []" if "\<forall>d \<in> set denom. \<bar>d\<bar> < eps"
  proof (rule nil)
    show "\<forall>d \<in> set denom. d \<le> eps"
      using that by fastforce
  qed
  then show ?thesis
    using out len inl nil by blast
qed

theorem RatioDistribution_denominator_witness:
  "length [1, 2, 3 :: real] = length [- 1, 1 / 10000000, 4 :: real]
   \<and> RatioDistribution (/) (*) [1, 2, 3] [- 1, 1 / 10000000, 4] 1000 = Inr [75]
   \<and> list_all (\<lambda>n. - 1000 < n \<and> n < 1000) [1, 2, 3 :: real]
   \<and> length [5 :: real] = length [1 / 10000000 :: real]
   \<and> list_all (\<lambda>d. \<bar>d\<bar> < eps) [1 / 10000000 :: real]
   \<and> RatioDistribution (/) (*) [5] [1 / 10000000] 1000 = Inr []"
  using RatioDistribution_denominator [of "[1, 2, 3]" "[- 1, 1 / 10000000, 4]" "(/)" "(*)" 1000]
    RatioDistribution_denominator [of "[5]" "[1 / 10000000]" "(/)" "(*)" 1000]
  by (simp add: pairs_where_def eps_def)

text \<open>
  C6. After the pass on the denominators a pair is dropped exactly when its numerator is
  outside the open interval from \<open>- t\<close> to \<open>t\<close>: the test reads the numerator, not the
  ratio (500 over 0.001 stays although its ratio is far above 1000, 2000 over 1000 goes
  although its ratio is 2). Each remaining pair gives numerator / denominator * 100, in the
  order of the input.
\<close>

theorem RatioDistribution_threshold:
  assumes "length num = length denom"
  shows "RatioDistribution fdiv fmul num denom t =
           Inr (map (\<lambda>(n, d). fmul (fdiv n d) 100)
                  (pairs_where (\<lambda>n d. - t < n \<and> n < t)
                     (pairs_where (\<lambda>n d. eps < d) (zip num denom))))
         \<and> RatioDistribution fdiv fmul [500] [1 / 1000] 1000 = Inr [fmul (fdiv 500 (1 / 1000)) 100]
         \<and> RatioDistribution fdiv fmul [2000] [1000] 1000 = Inr []"
proof -
  have c: "(\<lambda>n d. n < t \<and> - t < n) = (\<lambda>n d. - t < n \<and> n < t)" for t :: real
    by (auto simp: fun_eq_iff)
  have "RatioDistribution fdiv fmul num denom t =
           Inr (map (\<lambda>(n, d). fmul (fdiv n d) 100)
                  (pairs_where (\<lambda>n d. - t < n \<and> n < t)
                     (pairs_where (\<lambda>n d. eps < d) (zip num denom))))"
    using RatioDistribution_closed [OF assms, of fdiv fmul t] by (simp add: c)
  moreover have "RatioDistribution fdiv fmul [500] [1 / 1000] 1000 = Inr [fmul (fdiv 500 (1 / 1000)) 100]"
    by (simp add: RatioDistribution_closed pairs_where_def eps_def)
  moreover have "RatioDistribution fdiv fmul [2000] [1000] 1000 = Inr []"
    by (simp add: RatioDistribution_closed pairs_where_def eps_def)
  ultimately show ?thesis by blast
qed

theorem RatioDistribution_threshold_witness:
  "length [1, 2000, - 3, 4 :: real] = length [2, 5, 0, 8 :: real]
   \<and> RatioDistribution (/) (*) [1, 2000, - 3, 4] [2, 5, 0, 8] 1000 = Inr [50, 50]"
  using RatioDistribution_threshold [of "[1, 2000, - 3, 4]" "[2, 5, 0, 8]" "(/)" "(*)" 1000]
  by (simp add: pairs_where_def eps_def)

section \<open>Trade history as text: grouping and accrual\<close>

lemma rowgroupby_concat: "concat (map snd (rowgroupby key xs)) = xs"
  by (induction key xs rule: rowgroupby.induct) simp_all

lemma key_image_split:
  "key ` set xs = key ` set (takeWhile p xs) \<union> key ` set (dropWhile p xs)"
proof -
  have "set xs = set (takeWhile p xs @ dropWhile p xs)"
    by simp
  then show ?thesis
    unfolding set_append by blast
qed

lemma rowgroupby_keys: "set (map fst (rowgroupby key xs)) = key ` set xs"
proof (induction key xs rule: rowgroupby.induct)
  case (1 key)
  then show ?case by simp
next
  case (2 key x xs)
  let ?P = "\<lambda>y. key y = key x"
  have split: "key ` set xs = key ` set (takeWhile ?P xs) \<union> key ` set (dropWhile ?P xs)"
    by (rule key_image_split)
  have take: "key ` set (takeWhile ?P xs) \<subseteq> {key x}"
    by (auto dest: set_takeWhileD)
  have "set (map fst (rowgroupby key (x # xs)))
        = insert (key x) (key ` set (dropWhile ?P xs))"
    using "2.IH" by simp
  also have "\<dots> = key ` set (x # xs)"
    using split take by auto
  finally show ?case .
qed

lemma sorted_dropWhile_greater:
  fixes key :: "'a \<Rightarrow> 'k :: linorder"
  assumes "sorted (map key (x # xs))" and "y \<in> set (dropWhile (\<lambda>y. key y = key x) xs)"
  shows "key x < key y"
  using assms
proof (induction xs)
  case Nil
  then show ?case by simp
next
  case (Cons z zs)
  show ?case
  proof (cases "key z = key x")
    case True
    then show ?thesis
      using Cons by simp
  next
    case False
    then have y: "y = z \<or> y \<in> set zs"
      using Cons.prems(2) by simp
    have xz: "key x < key z"
      using False Cons.prems(1) by (simp add: less_le)
    have "\<forall>w \<in> set zs. key z \<le> key w"
      using Cons.prems(1) by simp
    then show ?thesis
      using y xz by (auto intro: less_le_trans)
  qed
qed

lemma sorted_takeWhile_filter:
  fixes key :: "'a \<Rightarrow> 'k :: linorder"
  assumes "sorted (map key (x # xs))"
  shows "takeWhile (\<lambda>y. key y = key x) xs = filter (\<lambda>y. key y = key x) xs"
  using assms
proof (induction xs)
  case Nil
  then show ?case by simp
next
  case (Cons z zs)
  show ?case
  proof (cases "key z = key x")
    case True
    have "sorted (map key (x # zs))"
      using Cons.prems by simp
    then have "takeWhile (\<lambda>y. key y = key x) zs = filter (\<lambda>y. key y = key x) zs"
      by (rule Cons.IH)
    then show ?thesis
      using True by simp
  next
    case False
    have xz: "key x < key z"
      using False Cons.prems by (simp add: less_le)
    have "\<forall>w \<in> set zs. key z \<le> key w"
      using Cons.prems by simp
    then have "\<forall>w \<in> set zs. key w \<noteq> key x"
      using xz by auto
    then have "filter (\<lambda>y. key y = key x) zs = []"
      by (simp add: filter_empty_conv)
    then show ?thesis
      using False by simp
  qed
qed

lemma sorted_dropWhile:
  fixes key :: "'a \<Rightarrow> 'k :: linorder"
  assumes "sorted (map key (x # xs))"
  shows "sorted (map key (dropWhile (\<lambda>y. key y = key x) xs))"
proof -
  let ?P = "\<lambda>y. key y = key x"
  have "sorted (map key xs)"
    using assms by simp
  then have "sorted (map key (takeWhile ?P xs @ dropWhile ?P xs))"
    by simp
  then show ?thesis
    unfolding map_append sorted_append by blast
qed

lemma rowgroupby_sorted_keys:
  fixes key :: "'a \<Rightarrow> 'k :: linorder"
  shows "sorted (map key xs) \<Longrightarrow> sorted_wrt (<) (map fst (rowgroupby key xs))"
proof (induction key xs rule: rowgroupby.induct)
  case (1 key)
  then show ?case by simp
next
  case (2 key x xs)
  let ?P = "\<lambda>y. key y = key x"
  have "\<forall>k \<in> key ` set (dropWhile ?P xs). key x < k"
    using sorted_dropWhile_greater [OF "2.prems"] by blast
  then have gt: "\<forall>k \<in> set (map fst (rowgroupby key (dropWhile ?P xs))). key x < k"
    unfolding rowgroupby_keys .
  have "sorted_wrt (<) (map fst (rowgroupby key (dropWhile ?P xs)))"
    using "2.IH" sorted_dropWhile [OF "2.prems"] by blast
  then show ?case
    using gt by simp
qed

lemma rowgroupby_sorted_groups:
  fixes key :: "'a \<Rightarrow> 'k :: linorder"
  shows "sorted (map key xs) \<Longrightarrow> (k, g) \<in> set (rowgroupby key xs) \<Longrightarrow>
         g = filter (\<lambda>y. key y = k) xs"
proof (induction key xs rule: rowgroupby.induct)
  case (1 key)
  then show ?case by simp
next
  case (2 key x xs)
  let ?P = "\<lambda>y. key y = key x"
  from "2.prems"(2) consider
    (head) "k = key x" "g = x # takeWhile ?P xs"
    | (tail) "(k, g) \<in> set (rowgroupby key (dropWhile ?P xs))"
    by auto
  then show ?case
  proof cases
    case head
    then show ?thesis
      using sorted_takeWhile_filter [OF "2.prems"(1)] by simp
  next
    case tail
    have g: "g = filter (\<lambda>y. key y = k) (dropWhile ?P xs)"
      using "2.IH" sorted_dropWhile [OF "2.prems"(1)] tail by blast
    have "fst (k, g) \<in> fst ` set (rowgroupby key (dropWhile ?P xs))"
      using tail by (rule imageI)
    then have "k \<in> set (map fst (rowgroupby key (dropWhile ?P xs)))"
      by simp
    then have "k \<in> key ` set (dropWhile ?P xs)"
      unfolding rowgroupby_keys .
    then have k: "key x < k"
      using sorted_dropWhile_greater [OF "2.prems"(1)] by blast
    have "\<forall>y \<in> set (takeWhile ?P xs). key y \<noteq> k"
      using k by (auto dest: set_takeWhileD)
    then have t: "filter (\<lambda>y. key y = k) (takeWhile ?P xs) = []"
      by (simp add: filter_empty_conv)
    have "filter (\<lambda>y. key y = k) xs
          = filter (\<lambda>y. key y = k) (takeWhile ?P xs @ dropWhile ?P xs)"
      by simp
    also have "\<dots> = filter (\<lambda>y. key y = k) (dropWhile ?P xs)"
      unfolding filter_append t by simp
    finally have "filter (\<lambda>y. key y = k) xs = g"
      using g by simp
    moreover have "key x \<noteq> k"
      using k by simp
    ultimately show ?thesis
      by simp
  qed
qed

text \<open>The groups of a table sorted by a stable sort are the rows of each key, in the order of the table.\<close>

lemma rowgroupby_sort_key:
  fixes key :: "'a \<Rightarrow> 'k :: linorder"
  shows "rowgroupby key (sort_key key xs)
         = map (\<lambda>k. (k, filter (\<lambda>y. key y = k) xs)) (sorted_list_of_set (key ` set xs))"
proof -
  let ?gs = "rowgroupby key (sort_key key xs)"
  have srt: "sorted (map key (sort_key key xs))"
    by simp
  have ks: "sorted_wrt (<) (map fst ?gs)"
    using srt by (rule rowgroupby_sorted_keys)
  have "set (map fst ?gs) = key ` set xs"
    unfolding rowgroupby_keys by simp
  then have keys: "map fst ?gs = sorted_list_of_set (key ` set xs)"
    using ks by (metis List.finite_set finite_imageI sorted_list_of_set.idem_if_sorted_distinct strict_sorted_iff)
  have "\<forall>p \<in> set ?gs. p = (fst p, filter (\<lambda>y. key y = fst p) xs)"
  proof
    fix p assume p: "p \<in> set ?gs"
    then have "(fst p, snd p) \<in> set ?gs"
      by simp
    then have "snd p = filter (\<lambda>y. key y = fst p) (sort_key key xs)"
      using srt by (rule rowgroupby_sorted_groups [rotated])
    then have "snd p = filter (\<lambda>y. key y = fst p) xs"
      by (simp add: sort_key_stable)
    then show "p = (fst p, filter (\<lambda>y. key y = fst p) xs)"
      by (metis prod.collapse)
  qed
  then have "map (\<lambda>p. (fst p, filter (\<lambda>y. key y = fst p) xs)) ?gs = ?gs"
    by (simp add: map_idI)
  then have "?gs = map (\<lambda>k. (k, filter (\<lambda>y. key y = k) xs)) (map fst ?gs)"
    by (simp add: comp_def)
  then show ?thesis
    unfolding keys .
qed

lemma addfieldusingcontext_fst: "map fst (addfieldusingcontext q prv rows) = rows"
  by (induction rows arbitrary: prv) (simp_all add: Let_def)

lemma addfieldusingcontext_length: "length (addfieldusingcontext q prv rows) = length rows"
  by (metis addfieldusingcontext_fst length_map)

lemma Accrue_sum:
  "i < length rows \<Longrightarrow>
   snd (addfieldusingcontext Accrue prv rows ! i)
   = (case prv of Some p \<Rightarrow> snd p | None \<Rightarrow> 0) + sum_list (map cost_agg (take (Suc i) rows))"
proof (induction rows arbitrary: prv i)
  case Nil
  then show ?case by simp
next
  case (Cons r rows)
  show ?case
  proof (cases i)
    case 0
    then show ?thesis
      by (simp add: Let_def Accrue_def ZERO_def split: option.splits)
  next
    case (Suc j)
    then have "j < length rows"
      using Cons.prems by simp
    then show ?thesis
      using Suc Cons.IH [of j] by (simp add: Let_def Accrue_def ZERO_def add.assoc split: option.splits)
  qed
qed

lemma sum_list_take_Suc:
  fixes f :: "'a \<Rightarrow> real"
  shows "i < length xs \<Longrightarrow>
         sum_list (map f (take (Suc i) xs)) = sum_list (map f (take i xs)) + f (xs ! i)"
  by (simp add: take_Suc_conv_app_nth)

lemma Accrue_step:
  assumes "i < length rows"
  shows "snd (addfieldusingcontext Accrue None rows ! i)
         = (if i = 0 then 0 else snd (addfieldusingcontext Accrue None rows ! (i - 1)))
           + cost_agg (rows ! i)"
proof (cases i)
  case 0
  then show ?thesis
    using assms Accrue_sum [of 0 rows None] by (simp add: take_Suc_conv_app_nth)
next
  case (Suc j)
  have j: "j < length rows"
    using assms Suc by simp
  have "sum_list (map cost_agg (take (Suc i) rows))
        = sum_list (map cost_agg (take i rows)) + cost_agg (rows ! i)"
    using assms by (rule sum_list_take_Suc)
  then have "sum_list (map cost_agg (take (Suc i) rows))
        = sum_list (map cost_agg (take (Suc j) rows)) + cost_agg (rows ! i)"
    unfolding Suc .
  then show ?thesis
    using Accrue_sum [OF assms, of None] Accrue_sum [OF j, of None] Suc by simp
qed

lemma Accrue_last:
  assumes "rows \<noteq> []"
  shows "snd (last (addfieldusingcontext Accrue None rows)) = sum_list (map cost_agg rows)"
proof -
  let ?out = "addfieldusingcontext Accrue None rows"
  have len: "length ?out = length rows"
    by (rule addfieldusingcontext_length)
  then have "?out \<noteq> []"
    using assms by auto
  then have "last ?out = ?out ! (length rows - 1)"
    using len by (simp add: last_conv_nth)
  moreover have "length rows - 1 < length rows"
    using assms by simp
  ultimately show ?thesis
    using Accrue_sum [of "length rows - 1" rows None] assms by simp
qed

lemma sum_list_groups:
  fixes f :: "'a \<Rightarrow> real"
  shows "sum_list (map (\<lambda>p. sum_list (map f (snd p))) gs) = sum_list (map f (concat (map snd gs)))"
  by (induction gs) simp_all

lemma sum_list_sort_key:
  fixes f :: "'a \<Rightarrow> real" and key :: "'a \<Rightarrow> 'k :: linorder"
  shows "sum_list (map f (sort_key key xs)) = sum_list (map f xs)"
proof -
  have "mset (map f (sort_key key xs)) = mset (map f xs)"
    by simp
  then show ?thesis
    by (metis sum_mset_sum_list)
qed

lemma aggregate_cost_total: "sum_list (map cost_agg (aggregate fmt txns)) = sum_list (map cost txns)"
proof -
  let ?key = "\<lambda>r. (datetime r, order_id r)"
  let ?gs = "rowgroupby ?key (sort_key ?key txns)"
  have "map cost_agg (aggregate fmt txns) = map (\<lambda>p. sum_list (map cost (snd p))) ?gs"
    by (simp add: aggregate_def case_prod_unfold)
  then have "sum_list (map cost_agg (aggregate fmt txns))
             = sum_list (map cost (concat (map snd ?gs)))"
    by (simp only: sum_list_groups)
  also have "\<dots> = sum_list (map cost (sort_key ?key txns))"
    by (simp only: rowgroupby_concat)
  also have "\<dots> = sum_list (map cost txns)"
    by (rule sum_list_sort_key)
  finally show ?thesis .
qed

lemma aggregate_rows:
  "aggregate fmt txns =
     map (\<lambda>k. \<lparr>datetime_agg = fst k, order_id_agg = snd k,
                static = RenderStatic fmt (event_rows txns k),
                puts = RenderPuts fmt (event_rows txns k),
                calls = RenderCalls fmt (event_rows txns k),
                cost_agg = sum_list (map cost (event_rows txns k))\<rparr>)
         (event_keys txns)"
  unfolding aggregate_def rowgroupby_sort_key event_keys_def event_rows_def
  by simp

lemma aggregate_nonempty: "txns \<noteq> [] \<Longrightarrow> aggregate fmt txns \<noteq> []"
proof -
  assume "txns \<noteq> []"
  then have "sort_key (\<lambda>r. (datetime r, order_id r)) txns \<noteq> []"
    by (metis length_0_conv length_sort)
  then obtain x xs where "sort_key (\<lambda>r. (datetime r, order_id r)) txns = x # xs"
    by (cases "sort_key (\<lambda>r. (datetime r, order_id r)) txns") auto
  then show ?thesis
    by (simp add: aggregate_def)
qed

text \<open>
  C5. The accrual column of \<^verbatim>\<open>RenderHistoryText\<close> is the left fold over the execution
  events in the order of (datetime, order_id): there is one row for each event, the rows
  are in the strictly ascending order of the keys, the cost of a row is the sum of the
  cost over the transactions of its event, and the accrual of a row is the accrual of the
  row before it, or 0 for the first row, plus the cost of the row. Hence the accrual of
  the last row is the sum of the cost over all the transactions of the chain.
\<close>

theorem rendered_rows_accrual:
  "length (rendered_rows fmt txns) = length (event_keys txns)
   \<and> sorted_wrt (<) (event_keys txns)
   \<and> (\<forall>i < length (event_keys txns).
         (datetime_agg (fst (rendered_rows fmt txns ! i)),
          order_id_agg (fst (rendered_rows fmt txns ! i))) = event_keys txns ! i
         \<and> cost_agg (fst (rendered_rows fmt txns ! i))
             = sum_list (map cost (event_rows txns (event_keys txns ! i)))
         \<and> snd (rendered_rows fmt txns ! i)
             = (if i = 0 then 0 else snd (rendered_rows fmt txns ! (i - 1)))
               + cost_agg (fst (rendered_rows fmt txns ! i)))
   \<and> (txns \<noteq> [] \<longrightarrow>
         rendered_rows fmt txns \<noteq> []
         \<and> snd (last (rendered_rows fmt txns)) = sum_list (map cost txns))"
proof -
  let ?agg = "aggregate fmt txns"
  let ?rs = "rendered_rows fmt txns"
  have fst_rs: "map fst ?rs = ?agg"
    unfolding rendered_rows_def by (rule addfieldusingcontext_fst)
  have len_agg: "length ?agg = length (event_keys txns)"
    unfolding aggregate_rows by simp
  have len: "length ?rs = length (event_keys txns)"
    using len_agg unfolding rendered_rows_def by (simp add: addfieldusingcontext_length)
  have keys: "sorted_wrt (<) (event_keys txns)"
    unfolding event_keys_def by (simp add: strict_sorted_iff)
  have rows: "(datetime_agg (fst (?rs ! i)), order_id_agg (fst (?rs ! i))) = event_keys txns ! i
         \<and> cost_agg (fst (?rs ! i)) = sum_list (map cost (event_rows txns (event_keys txns ! i)))
         \<and> snd (?rs ! i) = (if i = 0 then 0 else snd (?rs ! (i - 1))) + cost_agg (fst (?rs ! i))"
    if i: "i < length (event_keys txns)" for i
  proof -
    have "fst (?rs ! i) = ?agg ! i"
      using i len fst_rs by (metis nth_map)
    moreover have "?agg ! i =
       \<lparr>datetime_agg = fst (event_keys txns ! i), order_id_agg = snd (event_keys txns ! i),
        static = RenderStatic fmt (event_rows txns (event_keys txns ! i)),
        puts = RenderPuts fmt (event_rows txns (event_keys txns ! i)),
        calls = RenderCalls fmt (event_rows txns (event_keys txns ! i)),
        cost_agg = sum_list (map cost (event_rows txns (event_keys txns ! i)))\<rparr>"
      unfolding aggregate_rows using i by simp
    moreover have "snd (?rs ! i) = (if i = 0 then 0 else snd (?rs ! (i - 1))) + cost_agg (?agg ! i)"
      unfolding rendered_rows_def using i len_agg by (simp add: Accrue_step)
    ultimately show ?thesis
      by simp
  qed
  have total: "?rs \<noteq> [] \<and> snd (last ?rs) = sum_list (map cost txns)" if "txns \<noteq> []"
  proof -
    have ne: "?agg \<noteq> []"
      using that by (rule aggregate_nonempty)
    then have "?rs \<noteq> []"
      using fst_rs by auto
    moreover have "snd (last ?rs) = sum_list (map cost_agg ?agg)"
      unfolding rendered_rows_def using ne by (rule Accrue_last)
    ultimately show ?thesis
      by (simp add: aggregate_cost_total)
  qed
  show ?thesis
    using len keys rows total by blast
qed

lemma rendered_rows_history:
  "map snd (rendered_rows symbol history_txns) = [- 3, 3]
   \<and> map (\<lambda>p. (datetime_agg (fst p), order_id_agg (fst p), cost_agg (fst p)))
        (rendered_rows symbol history_txns) = [(1, ''o1'', - 3), (2, ''o2'', 6)]"
  by (simp add: rendered_rows_def aggregate_def history_txns_def leg_def equity_row_def
      Accrue_def ZERO_def Let_def less_char_def less_eq_char_def)

theorem rendered_rows_accrual_witness:
  "history_txns \<noteq> []
   \<and> length (event_keys history_txns) = 2
   \<and> map snd (rendered_rows symbol history_txns) = [- 3, 3]
   \<and> snd (last (rendered_rows symbol history_txns)) = sum_list (map cost history_txns)
   \<and> sum_list (map cost history_txns) = 3"
proof -
  have ev: "map snd (rendered_rows symbol history_txns) = [- 3, 3]"
    using rendered_rows_history by simp
  then have "length (rendered_rows symbol history_txns) = 2"
    by (metis length_map length_Cons list.size(3) numeral_2_eq_2)
  moreover have "history_txns \<noteq> []"
    by (simp add: history_txns_def)
  moreover have "sum_list (map cost history_txns) = 3"
    by (simp add: history_txns_def leg_def equity_row_def)
  ultimately show ?thesis
    using rendered_rows_accrual [of symbol history_txns] ev by simp
qed

section \<open>Trade history as SVG: the vertical layout and the scale\<close>













end
